theory Spec2Isabelle
  imports Main
begin

section \<open>JavaScript values, errors and completions\<close>

text \<open>
  The hooks of \<^verbatim>\<open>core/utils/hooks.js\<close> inspect their arguments at run time
  (\<^verbatim>\<open>typeof\<close>, truthiness, \<^verbatim>\<open>instanceof Function\<close>), so the values they
  receive are modelled by one datatype. Functions, objects and promises carry an identity
  (a number): two of them are the same value only when they are the same object. An object
  also carries the properties that \<^verbatim>\<open>obj[key]\<close> can find, its own and those of
  its prototypes, as an association list.
\<close>

datatype jsval =
    Undefined
  | Null
  | JBool bool
  | JNum int
  | JStr string
  | JFn nat
  | JObj nat "(string \<times> jsval) list"
  | JPromise nat

datatype js_error =
    Error string
  | TypeError string
  | DOMException string

text \<open>
  A call either throws to its caller or returns normally. An \<^verbatim>\<open>async\<close> function
  always returns normally, with a promise: a \<^verbatim>\<open>throw\<close> in its body rejects that
  promise.
\<close>

datatype 'a completion =
    Throw js_error
  | Normal 'a

fun typeof :: "jsval \<Rightarrow> string" where
  "typeof Undefined = ''undefined''"
| "typeof Null = ''object''"
| "typeof (JBool b) = ''boolean''"
| "typeof (JNum n) = ''number''"
| "typeof (JStr s) = ''string''"
| "typeof (JFn f) = ''function''"
| "typeof (JObj i ps) = ''object''"
| "typeof (JPromise p) = ''object''"

fun truthy :: "jsval \<Rightarrow> bool" where
  "truthy Undefined = False"
| "truthy Null = False"
| "truthy (JBool b) = b"
| "truthy (JNum n) = (n \<noteq> 0)"
| "truthy (JStr s) = (s \<noteq> [])"
| "truthy (JFn f) = True"
| "truthy (JObj i ps) = True"
| "truthy (JPromise p) = True"

text \<open>
  \<^verbatim>\<open>obj[key]\<close> on the property list of a value: the list holds every property
  the read can find, the object's own and those of its prototypes.
\<close>

definition get_prop :: "(string \<times> jsval) list \<Rightarrow> string \<Rightarrow> jsval" where
  "get_prop ps k = (case map_of ps k of None \<Rightarrow> Undefined | Some v \<Rightarrow> v)"

text \<open>
  The two objects that \<^verbatim>\<open>useService\<close> looks names up in are kept in two parts:
  the properties of the object itself and the properties it inherits from its prototypes.
  \<^verbatim>\<open>key in obj\<close> and \<^verbatim>\<open>obj[key]\<close> both look in the object first and in
  its prototypes next. An object made by \<^verbatim>\<open>{}\<close> inherits the properties of
  \<^verbatim>\<open>Object.prototype\<close>; one made by \<^verbatim>\<open>Object.create(null)\<close> inherits
  nothing.
\<close>

record registry =
  own :: "(string \<times> jsval) list"
  inherited :: "(string \<times> jsval) list"


definition js_in :: "string \<Rightarrow> registry \<Rightarrow> bool" where
  "js_in k r = (map_of (own r) k \<noteq> None \<or> map_of (inherited r) k \<noteq> None)"

definition js_get :: "registry \<Rightarrow> string \<Rightarrow> jsval" where
  "js_get r k =
     (case map_of (own r) k of
        Some v \<Rightarrow> v
      | None \<Rightarrow> (case map_of (inherited r) k of Some v \<Rightarrow> v | None \<Rightarrow> Undefined))"

section \<open>Components and the world they live in\<close>

text \<open>
  What the hooks read of the component that \<^verbatim>\<open>useComponent()\<close> returns: its
  identity, \<^verbatim>\<open>env.isSmall\<close>, \<^verbatim>\<open>env.services\<close> and its root element
  \<^verbatim>\<open>el\<close>. The hooks are called from a component's setup, so the component is an
  argument of each hook of the model.
\<close>

record component =
  cid :: nat
  isSmall :: jsval
  services :: registry
  el :: nat

datatype outcome =
    Fulfilled jsval
  | Rejected js_error

text \<open>
  The mutable state that \<^verbatim>\<open>_protectMethod\<close> reads and that service calls
  change: \<^verbatim>\<open>component.__owl__.status\<close> of every component, the promises that have
  settled so far (a promise that is not in the map is pending), the log of the calls
  made to service implementations (function, \<^verbatim>\<open>this\<close>, arguments), and, for the
  objects with a \<^verbatim>\<open>then\<close> method (by identity), what each has passed so far to
  the callbacks that an \<^verbatim>\<open>await\<close> gave to its \<^verbatim>\<open>then\<close>: nothing yet, a
  value to resume with, or an error.
\<close>

record world =
  status :: "nat \<Rightarrow> nat"
  settled :: "nat \<Rightarrow> outcome option"
  calls :: "(nat \<times> jsval \<times> jsval list) list"
  reported :: "nat \<Rightarrow> outcome option"

definition DESTROYED :: nat where
  "DESTROYED = 2"

section \<open>useService and the destruction guard\<close>

text \<open>
  What a service implementation does when it is called is the host's: it throws, or it
  returns a value, which may be a promise.
\<close>

datatype fn_outcome =
    Throws js_error
  | Returns jsval

type_synonym fn_impl = "nat \<Rightarrow> jsval \<Rightarrow> jsval list \<Rightarrow> fn_outcome"

text \<open>
  \<^verbatim>\<open>fn.call(caller, ...args)\<close>: a function is invoked, and the invocation is logged;
  anything else has no \<^verbatim>\<open>call\<close> to invoke, which is a TypeError.
\<close>

fun fn_call :: "fn_impl \<Rightarrow> jsval \<Rightarrow> jsval \<Rightarrow> jsval list \<Rightarrow> world \<Rightarrow> fn_outcome \<times> world" where
  "fn_call impl (JFn f) caller args w =
     (impl f caller args, w\<lparr>calls := calls w @ [(f, caller, args)]\<rparr>)"
| "fn_call impl v caller args w = (Throws (TypeError ''fn.call is not a function''), w)"

text \<open>
  The closure \<^verbatim>\<open>_protectMethod(component, caller, fn)\<close> returns, with the three
  variables it captures.
\<close>

datatype protected = Protected nat jsval jsval

definition protectMethod :: "component \<Rightarrow> jsval \<Rightarrow> jsval \<Rightarrow> protected" where
  "protectMethod component caller fn = Protected (cid component) caller fn"

text \<open>
  The body of the \<^verbatim>\<open>async\<close> arrow function is in one of three states once it has
  been called: finished (its promise is settled), suspended at the \<^verbatim>\<open>await\<close> on
  the value the implementation returned, or finished by returning
  \<^verbatim>\<open>new Promise(() => {})\<close>, which locks its promise onto one that never settles.
\<close>

datatype async_state =
    Done outcome
  | Awaiting jsval
  | Forever

datatype promise_view =
    Pending
  | Settled outcome

fun view :: "async_state \<Rightarrow> promise_view" where
  "view (Done out) = Settled out"
| "view (Awaiting v) = Pending"
| "view Forever = Pending"

text \<open>
  The call of the wrapper, up to its first suspension: the status check, then the call of
  the implementation. The wrapper is \<^verbatim>\<open>async\<close>, so the call itself completes
  normally in every case.
\<close>

definition protected_call ::
    "fn_impl \<Rightarrow> protected \<Rightarrow> jsval list \<Rightarrow> world \<Rightarrow> async_state completion \<times> world" where
  "protected_call impl p args w =
     (case p of Protected c caller fn \<Rightarrow>
        if status w c = DESTROYED
        then (Normal (Done (Rejected (Error ''Component is destroyed''))), w)
        else (case fn_call impl fn caller args w of
                (Throws e, w') \<Rightarrow> (Normal (Done (Rejected e)), w')
              | (Returns v, w') \<Rightarrow> (Normal (Awaiting v), w')))"

text \<open>
  The rest of the body, run when the awaited value is available:
  \<^verbatim>\<open>return component.__owl__.status === 2 ? new Promise(() => {}) : result\<close>.
\<close>

definition after_await :: "nat \<Rightarrow> jsval \<Rightarrow> world \<Rightarrow> async_state" where
  "after_await c result w =
     (if status w c = DESTROYED then Forever else Done (Fulfilled result))"

text \<open>
  One turn of the job queue for a suspended body. Awaiting a pending promise, it stays
  suspended; a rejected promise makes the \<^verbatim>\<open>await\<close> throw, which rejects the
  wrapper's promise; a fulfilled promise resumes the body with its value. An object whose
  \<^verbatim>\<open>then\<close> is a function is adopted in the same way: the body waits for what the
  object passes to the callbacks. Any other value resumes the body as it is.
\<close>

fun resume :: "nat \<Rightarrow> async_state \<Rightarrow> world \<Rightarrow> async_state" where
  "resume c (Awaiting (JPromise p)) w =
     (case settled w p of
        None \<Rightarrow> Awaiting (JPromise p)
      | Some (Fulfilled r) \<Rightarrow> after_await c r w
      | Some (Rejected e) \<Rightarrow> Done (Rejected e))"
| "resume c (Awaiting (JObj i ps)) w =
     (if typeof (get_prop ps ''then'') = ''function''
      then (case reported w i of
              None \<Rightarrow> Awaiting (JObj i ps)
            | Some (Fulfilled r) \<Rightarrow> after_await c r w
            | Some (Rejected e) \<Rightarrow> Done (Rejected e))
      else after_await c (JObj i ps) w)"
| "resume c (Awaiting v) w = after_await c v w"
| "resume c t w = t"

text \<open>
  What can happen while the wrapper's promise is observed: a component is destroyed, a
  promise settles (once), an object with a \<^verbatim>\<open>then\<close> method calls one of the
  callbacks it was given (the first call counts), the job queue runs. No event leaves the
  destroyed status: it is the last of a component's life.
\<close>

datatype event =
    Destroy nat
  | Settle nat outcome
  | Report nat outcome
  | Microtask

fun step :: "nat \<Rightarrow> event \<Rightarrow> async_state \<times> world \<Rightarrow> async_state \<times> world" where
  "step c (Destroy d) (t, w) = (t, w\<lparr>status := (status w)(d := DESTROYED)\<rparr>)"
| "step c (Settle p out) (t, w) =
     (t, if settled w p = None then w\<lparr>settled := (settled w)(p \<mapsto> out)\<rparr> else w)"
| "step c (Report i out) (t, w) =
     (t, if reported w i = None then w\<lparr>reported := (reported w)(i \<mapsto> out)\<rparr> else w)"
| "step c Microtask (t, w) = (resume c t w, w)"

fun run :: "nat \<Rightarrow> event list \<Rightarrow> async_state \<times> world \<Rightarrow> async_state \<times> world" where
  "run c [] s = s"
| "run c (e # es) s = run c es (step c e s)"

text \<open>An event that settles the promise \<open>p\<close>.\<close>

fun is_settle :: "nat \<Rightarrow> event \<Rightarrow> bool" where
  "is_settle p (Settle q out) = (p = q)"
| "is_settle p ev = False"

text \<open>
  What \<^verbatim>\<open>useService\<close> returns: the service itself, the guarded function, or the
  object \<^verbatim>\<open>Object.create(service)\<close> with its own guarded methods (the prototype and
  the own properties).
\<close>

datatype service_handle =
    Plain jsval
  | GuardedFn protected
  | GuardedObj jsval "(string \<times> protected) list"

text \<open>The accesses to the registry that a call of \<^verbatim>\<open>useService\<close> makes.\<close>

datatype registry_op =
    Has string
  | Get string

text \<open>
  \<^verbatim>\<open>service[method]\<close> for the loop over the methods: a read of a property of
  \<^verbatim>\<open>null\<close> is a TypeError.
\<close>

fun service_method :: "jsval \<Rightarrow> string \<Rightarrow> js_error + jsval" where
  "service_method (JObj i ps) m = Inr (get_prop ps m)"
| "service_method Null m = Inl (TypeError ''Cannot read properties of null'')"
| "service_method v m = Inr Undefined"

fun protect_methods ::
    "component \<Rightarrow> jsval \<Rightarrow> string list \<Rightarrow> js_error + (string \<times> protected) list" where
  "protect_methods component service [] = Inr []"
| "protect_methods component service (m # ms) =
     (case service_method service m of
        Inl e \<Rightarrow> Inl e
      | Inr fn \<Rightarrow>
          (case protect_methods component service ms of
             Inl e \<Rightarrow> Inl e
           | Inr rest \<Rightarrow> Inr ((m, protectMethod component service fn) # rest)))"

text \<open>\<^verbatim>\<open>Object.create(proto)\<close> accepts an object or \<^verbatim>\<open>null\<close> only.\<close>

fun can_be_prototype :: "jsval \<Rightarrow> bool" where
  "can_be_prototype (JObj i ps) = True"
| "can_be_prototype (JPromise p) = True"
| "can_be_prototype Null = True"
| "can_be_prototype v = False"

text \<open>
  The map \<^verbatim>\<open>SERVICES_METADATA\<close> is imported from \<^verbatim>\<open>@web/env\<close>; it is a
  parameter here. Its own entries give, for a service name, the names of the methods to
  guard; like every object it may inherit other properties, whose values are whatever the
  prototype holds.
\<close>

record metadata =
  listed :: "(string \<times> string list) list"
  meta_inherited :: "(string \<times> jsval) list"


definition meta_in :: "string \<Rightarrow> metadata \<Rightarrow> bool" where
  "meta_in k m = (map_of (listed m) k \<noteq> None \<or> map_of (meta_inherited m) k \<noteq> None)"

text \<open>
  \<^verbatim>\<open>for (let method of SERVICES_METADATA[serviceName])\<close>: the names the loop
  runs over. An own entry is a list of names. An inherited value is iterated as it is: a
  string gives its characters, and a value that cannot be iterated is a TypeError.
\<close>

definition meta_methods :: "metadata \<Rightarrow> string \<Rightarrow> js_error + string list" where
  "meta_methods m k =
     (case map_of (listed m) k of
        Some methods \<Rightarrow> Inr methods
      | None \<Rightarrow>
          (case map_of (meta_inherited m) k of
             Some (JStr s) \<Rightarrow> Inr (map (\<lambda>c. [c]) s)
           | _ \<Rightarrow> Inl (TypeError ''methods is not iterable'')))"

text \<open>\<^verbatim>\<open>useService(serviceName)\<close>.\<close>

definition useService ::
    "metadata \<Rightarrow> component \<Rightarrow> string \<Rightarrow> (js_error + service_handle) \<times> registry_op list" where
  "useService SERVICES_METADATA component serviceName =
     (if \<not> js_in serviceName (services component)
      then (Inl (Error (''Service '' @ serviceName @ '' is not available'')), [Has serviceName])
      else
        let service = js_get (services component) serviceName;
            ops = [Has serviceName, Get serviceName]
        in if meta_in serviceName SERVICES_METADATA
           then (case service of
                   JFn f \<Rightarrow> (Inr (GuardedFn (protectMethod component Null service)), ops)
                 | _ \<Rightarrow>
                     if \<not> can_be_prototype service
                     then (Inl (TypeError ''Object prototype may only be an Object or null''), ops)
                     else (case meta_methods SERVICES_METADATA serviceName of
                             Inl e \<Rightarrow> (Inl e, ops)
                           | Inr methods \<Rightarrow>
                               (case protect_methods component service methods of
                                  Inl e \<Rightarrow> (Inl e, ops)
                                | Inr ms \<Rightarrow> (Inr (GuardedObj service ms), ops))))
           else (Inr (Plain service), ops))"

text \<open>The guarded methods of a handle.\<close>

fun guarded :: "service_handle \<Rightarrow> protected list" where
  "guarded (Plain v) = []"
| "guarded (GuardedFn p) = [p]"
| "guarded (GuardedObj proto ms) = map snd ms"

section \<open>The framework's effect primitive\<close>

text \<open>
  Modelled from the spec: \<^verbatim>\<open>useEffect\<close> belongs to the component framework
  (owl), which is not among the sources. The spec calls it a "run side effect on dependency
  change" primitive that registers a side effect at setup and tears it down at destruction,
  and speaks of re-running "on the next framework update cycle". So: at mount the
  dependencies are computed and the effect runs with them; at each update (patch) they are
  computed again and, when one of them differs from the stored one at the same position, the
  stored clean-up runs and the effect runs again; at teardown the stored clean-up runs. The
  model is generic in the state \<open>'w\<close> the effect acts on, in the dependencies \<open>'d\<close>
  and in the clean-up closures \<open>'c\<close> (run by \<open>run_cleanup\<close>).
\<close>

record ('d, 'c) slot =
  dependencies :: "'d list"
  cleanup :: "'c option"

text \<open>
  Modelled from the spec: the test for "dependency change" of the framework's
  \<^verbatim>\<open>useEffect\<close>; a new dependency differs from the stored one at its position, or
  has none stored at its position.
\<close>

definition shouldReapply :: "'d list \<Rightarrow> 'd list \<Rightarrow> bool" where
  "shouldReapply newDeps deps =
     list_ex (\<lambda>i. i \<ge> length deps \<or> newDeps ! i \<noteq> deps ! i) [0 ..< length newDeps]"

text \<open>
  Modelled from the spec: the framework's \<^verbatim>\<open>useEffect\<close> runs the clean-up that
  the last run of the effect returned, when it returned one.
\<close>

definition run_stored :: "('c \<Rightarrow> 'w \<Rightarrow> 'w) \<Rightarrow> ('d, 'c) slot \<Rightarrow> 'w \<Rightarrow> 'w" where
  "run_stored run_cleanup sl w = (case cleanup sl of None \<Rightarrow> w | Some c \<Rightarrow> run_cleanup c w)"

text \<open>
  Modelled from the spec: what the framework's \<^verbatim>\<open>useEffect\<close> does when the
  component is mounted.
\<close>

definition onMounted ::
    "('w \<Rightarrow> 'd list) \<Rightarrow> ('d list \<Rightarrow> 'w \<Rightarrow> 'c option \<times> 'w) \<Rightarrow> 'w \<Rightarrow> ('d, 'c) slot \<times> 'w" where
  "onMounted computeDependencies effect w =
     (let deps = computeDependencies w;
          (c, w') = effect deps w
      in (\<lparr>dependencies = deps, cleanup = c\<rparr>, w'))"

text \<open>
  Modelled from the spec: what the framework's \<^verbatim>\<open>useEffect\<close> does at each
  update of the component ("on the next framework update cycle").
\<close>

definition onPatched ::
    "('w \<Rightarrow> 'd list) \<Rightarrow> ('d list \<Rightarrow> 'w \<Rightarrow> 'c option \<times> 'w) \<Rightarrow> ('c \<Rightarrow> 'w \<Rightarrow> 'w)
       \<Rightarrow> ('d, 'c) slot \<Rightarrow> 'w \<Rightarrow> ('d, 'c) slot \<times> 'w" where
  "onPatched computeDependencies effect run_cleanup sl w =
     (let newDeps = computeDependencies w
      in if shouldReapply newDeps (dependencies sl)
         then (let (c, w') = effect newDeps (run_stored run_cleanup sl w)
               in (\<lparr>dependencies = newDeps, cleanup = c\<rparr>, w'))
         else (sl, w))"

text \<open>
  Modelled from the spec: what the framework's \<^verbatim>\<open>useEffect\<close> does at the
  teardown of the component.
\<close>

definition onWillUnmount :: "('c \<Rightarrow> 'w \<Rightarrow> 'w) \<Rightarrow> ('d, 'c) slot \<Rightarrow> 'w \<Rightarrow> 'w" where
  "onWillUnmount run_cleanup sl w = run_stored run_cleanup sl w"

section \<open>useListener\<close>

text \<open>
  The handler that \<^verbatim>\<open>useListener\<close> registers is one of two closures: the delegating
  one, which captures the selector, the handler and the component, or
  \<^verbatim>\<open>handler.bind(comp)\<close>.
\<close>

datatype bound_handler =
    Delegated jsval jsval component
  | BoundTo jsval component

text \<open>
  The effects that the hooks register with \<^verbatim>\<open>useEffect\<close>, each with the variables
  its two closures capture: the reference name and the variable
  \<^verbatim>\<open>forceFocusCount\<close> (by the number that names it) for \<^verbatim>\<open>useAutofocus\<close>; the
  bus, the event name, the callback and the component for \<^verbatim>\<open>useBus\<close>; the
  component, the event name, the bound handler and the options for
  \<^verbatim>\<open>useListener\<close>.
\<close>

datatype effect_reg =
    AutofocusEffect string nat
  | BusEffect nat string nat component
  | ListenerEffect component jsval bound_handler jsval

text \<open>\<^verbatim>\<open>arguments[i]\<close>: \<^verbatim>\<open>undefined\<close> past the arguments given.\<close>

definition arg :: "jsval list \<Rightarrow> nat \<Rightarrow> jsval" where
  "arg arguments i = (if i < length arguments then arguments ! i else Undefined)"

text \<open>The empty object literal \<^verbatim>\<open>{}\<close>.\<close>

definition empty_object :: jsval where
  "empty_object = JObj 0 []"

text \<open>
  \<^verbatim>\<open>useListener(eventName, querySelector, handler, options = {})\<close>, on the list of
  the arguments it is called with and the effects registered so far. It throws, or returns
  with one more effect registered.
\<close>

definition useListener :: "jsval list \<Rightarrow> component \<Rightarrow> effect_reg list \<Rightarrow> js_error + effect_reg list" where
  "useListener arguments component regs =
     (let eventName = arg arguments 0;
          (querySelector, handler, options) =
            (if typeof (arg arguments 1) \<noteq> ''string''
             then (Null, arg arguments 1,
                   if truthy (arg arguments 2) then arg arguments 2 else empty_object)
             else (arg arguments 1, arg arguments 2,
                   if arg arguments 3 = Undefined then empty_object else arg arguments 3))
      in if typeof handler \<noteq> ''function''
         then Inl (Error ''The handler must be a function'')
         else
           let boundHandler =
                 (if truthy querySelector then Delegated querySelector handler component
                  else BoundTo handler component)
           in Inr (regs @ [ListenerEffect component eventName boundHandler options]))"

text \<open>
  A DOM event, as far as the handler and the dispatch read it: its type, \<^verbatim>\<open>ev.target\<close>
  followed by the chain of its \<^verbatim>\<open>parentElement\<close>s, up to the element that has none,
  and how far the browser carries it: the elements whose listeners it calls, each with the
  phase it calls them in (\<open>True\<close> for the listeners that capture, \<open>False\<close> for the
  others). Whether the event bubbles and whether a listener of the page stops its
  propagation both show there. Elements are known by identity.
\<close>

record dom_event =
  etype :: string
  path :: "nat list"
  reached :: "(nat \<times> bool) list"

text \<open>
  How far the browser carries an event that no listener stops: down through the ancestors
  of the target for the listeners that capture, to the target for both kinds, and, when the
  event bubbles, back up through the ancestors for the others.
\<close>

fun propagate :: "bool \<Rightarrow> nat list \<Rightarrow> (nat \<times> bool) list" where
  "propagate bubbles [] = []"
| "propagate bubbles (t # ancestors) =
     map (\<lambda>a. (a, True)) (rev ancestors) @ [(t, True), (t, False)]
     @ (if bubbles then map (\<lambda>a. (a, False)) ancestors else [])"

text \<open>
  The loop of the delegating handler, on \<^verbatim>\<open>el\<close> followed by its ancestors. It
  returns the value of \<^verbatim>\<open>el\<close> when the loop ends: the first element that matches,
  or \<^verbatim>\<open>null\<close> once the root has been passed or the ancestors are exhausted.
  \<^verbatim>\<open>el.matches\<close> is the browser's; it is the parameter \<open>matches\<close>.
\<close>

fun find_target :: "(nat \<Rightarrow> jsval \<Rightarrow> bool) \<Rightarrow> jsval \<Rightarrow> nat \<Rightarrow> nat list \<Rightarrow> nat option" where
  "find_target matches querySelector root [] = None"
| "find_target matches querySelector root (e # ancestors) =
     (if matches e querySelector then Some e
      else if e = root then None
      else find_target matches querySelector root ancestors)"

text \<open>
  The state of the document that listeners act on: the listeners attached to elements
  (element, event type, listener, whether it captures), and the log of the calls of handlers (handler,
  \<^verbatim>\<open>this\<close>, event).
\<close>

record dom_world =
  dom_listeners :: "(nat \<times> jsval \<times> bound_handler \<times> bool) list"
  handled :: "(jsval \<times> nat \<times> dom_event) list"

text \<open>Calling the bound handler with an event.\<close>

fun call_bound :: "(nat \<Rightarrow> jsval \<Rightarrow> bool) \<Rightarrow> bound_handler \<Rightarrow> dom_event \<Rightarrow> dom_world \<Rightarrow> dom_world" where
  "call_bound matches (Delegated querySelector handler component) ev w =
     (case find_target matches querySelector (el component) (path ev) of
        None \<Rightarrow> w
      | Some e \<Rightarrow> w\<lparr>handled := handled w @ [(handler, cid component, ev)]\<rparr>)"
| "call_bound matches (BoundTo handler component) ev w =
     w\<lparr>handled := handled w @ [(handler, cid component, ev)]\<rparr>"

text \<open>
  The third argument of \<^verbatim>\<open>addEventListener\<close> and \<^verbatim>\<open>removeEventListener\<close>: an
  object is read as options, whose \<^verbatim>\<open>capture\<close> counts; any other value counts as
  the flag itself.
\<close>

fun capture_of :: "jsval \<Rightarrow> bool" where
  "capture_of (JObj i ps) = truthy (get_prop ps ''capture'')"
| "capture_of (JFn f) = False"
| "capture_of (JPromise p) = False"
| "capture_of v = truthy v"

text \<open>
  The effect of \<^verbatim>\<open>useListener\<close> and its clean-up:
  \<^verbatim>\<open>comp.el.addEventListener(eventName, boundHandler, options)\<close> and the matching
  \<^verbatim>\<open>removeEventListener\<close>. Its dependencies are \<^verbatim>\<open>[]\<close>.
\<close>

datatype listener_cleanup = RemoveListener nat jsval bound_handler jsval

definition listener_effect ::
    "component \<Rightarrow> jsval \<Rightarrow> bound_handler \<Rightarrow> jsval \<Rightarrow> unit list \<Rightarrow> dom_world
       \<Rightarrow> listener_cleanup option \<times> dom_world" where
  "listener_effect component eventName boundHandler options deps w =
     (Some (RemoveListener (el component) eventName boundHandler options),
      w\<lparr>dom_listeners :=
           dom_listeners w @ [(el component, eventName, boundHandler, capture_of options)]\<rparr>)"

fun listener_cleanup_run :: "listener_cleanup \<Rightarrow> dom_world \<Rightarrow> dom_world" where
  "listener_cleanup_run (RemoveListener e eventName boundHandler options) w =
     w\<lparr>dom_listeners :=
          remove1 (e, eventName, boundHandler, capture_of options) (dom_listeners w)\<rparr>"

text \<open>
  The browser's dispatch: an event is delivered to a listener when the listener is
  attached for the event's type to an element of the event's path (its target or an
  ancestor of its target) and the event reaches the listeners of that element in the
  listener's phase.
\<close>

definition reaches :: "dom_event \<Rightarrow> nat \<Rightarrow> bool \<Rightarrow> bool" where
  "reaches ev e capture = (e \<in> set (path ev) \<and> (e, capture) \<in> set (reached ev))"

definition deliver ::
    "(nat \<Rightarrow> jsval \<Rightarrow> bool) \<Rightarrow> dom_event \<Rightarrow> nat \<times> jsval \<times> bound_handler \<times> bool
       \<Rightarrow> dom_world \<Rightarrow> dom_world" where
  "deliver matches ev l w =
     (case l of (e, ty, h, capture) \<Rightarrow>
        if ty = JStr (etype ev) \<and> reaches ev e capture then call_bound matches h ev w else w)"

definition dispatch :: "(nat \<Rightarrow> jsval \<Rightarrow> bool) \<Rightarrow> dom_event \<Rightarrow> dom_world \<Rightarrow> dom_world" where
  "dispatch matches ev w = fold (deliver matches ev) (dom_listeners w) w"

text \<open>
  The chain the specification speaks of: from the target up through its ancestors, stopping
  at the root, which is its last element. A target outside the root's subtree has no such
  chain.
\<close>

definition chain_to_root :: "nat \<Rightarrow> nat list \<Rightarrow> nat list" where
  "chain_to_root root p = (if root \<in> set p then takeWhile (\<lambda>e. e \<noteq> root) p @ [root] else [])"

section \<open>useBus\<close>

text \<open>
  \<^verbatim>\<open>useBus(bus, eventName, callback)\<close> registers one effect with no dependencies.
  The callback is a function, known by its identity.
\<close>

definition useBus :: "nat \<Rightarrow> string \<Rightarrow> nat \<Rightarrow> component \<Rightarrow> effect_reg list \<Rightarrow> effect_reg list" where
  "useBus bus eventName callback component regs =
     regs @ [BusEffect bus eventName callback component]"

text \<open>
  \<^verbatim>\<open>callback.bind(component)\<close> makes a new function object each time it runs: its
  identity, the function it calls and the \<^verbatim>\<open>this\<close> it calls it with.
\<close>

record bound_fn =
  ident :: nat
  target_fn :: nat
  bound_this :: nat

text \<open>
  Modelled from the spec: the event bus is the framework's \<^verbatim>\<open>EventBus\<close>, which is
  not among the sources; the spec calls it "a publish/subscribe channel for arbitrary named
  events". So: a bus keeps its listeners in the order they were added, adding a listener
  that is already there for the same event changes nothing, removing takes that listener
  out, and a dispatch of an event calls each listener of that event once. The state also
  counts the function objects created so far, which gives the next one its identity, and
  logs the calls made: the listener called and the event name. A call of the bound function
  \<open>l\<close> is a call of \<open>target_fn l\<close> with \<open>bound_this l\<close> as its
  \<^verbatim>\<open>this\<close>.
\<close>

record bus_world =
  listeners :: "nat \<Rightarrow> (string \<times> bound_fn) list"
  created :: nat
  invoked :: "(bound_fn \<times> string) list"

text \<open>
  Modelled from the spec: \<^verbatim>\<open>addEventListener\<close> of the framework's
  \<^verbatim>\<open>EventBus\<close>.
\<close>

definition addEventListener :: "nat \<Rightarrow> string \<Rightarrow> bound_fn \<Rightarrow> bus_world \<Rightarrow> bus_world" where
  "addEventListener bus eventName listener w =
     (if (eventName, listener) \<in> set (listeners w bus) then w
      else w\<lparr>listeners := (listeners w)(bus := listeners w bus @ [(eventName, listener)])\<rparr>)"

text \<open>
  Modelled from the spec: \<^verbatim>\<open>removeEventListener\<close> of the framework's
  \<^verbatim>\<open>EventBus\<close>.
\<close>

definition removeEventListener :: "nat \<Rightarrow> string \<Rightarrow> bound_fn \<Rightarrow> bus_world \<Rightarrow> bus_world" where
  "removeEventListener bus eventName listener w =
     w\<lparr>listeners := (listeners w)(bus := remove1 (eventName, listener) (listeners w bus))\<rparr>"

text \<open>
  Modelled from the spec: a dispatch of the event \<open>eventName\<close> on a bus of the
  framework.
\<close>

definition trigger :: "nat \<Rightarrow> string \<Rightarrow> bus_world \<Rightarrow> bus_world" where
  "trigger bus eventName w =
     w\<lparr>invoked := invoked w @
          map (\<lambda>(n, l). (l, eventName))
              (filter (\<lambda>(n, l). n = eventName) (listeners w bus))\<rparr>"

text \<open>
  The effect of \<^verbatim>\<open>useBus\<close> and the clean-up it returns, which captures the
  listener it added. Its dependencies are \<^verbatim>\<open>[]\<close>.
\<close>

datatype bus_cleanup = RemoveBusListener nat string bound_fn

definition bind :: "nat \<Rightarrow> component \<Rightarrow> bus_world \<Rightarrow> bound_fn" where
  "bind callback component w =
     \<lparr>ident = created w, target_fn = callback, bound_this = cid component\<rparr>"

definition bus_effect ::
    "nat \<Rightarrow> string \<Rightarrow> nat \<Rightarrow> component \<Rightarrow> unit list \<Rightarrow> bus_world \<Rightarrow> bus_cleanup option \<times> bus_world" where
  "bus_effect bus eventName callback component deps w =
     (let listener = bind callback component w
      in (Some (RemoveBusListener bus eventName listener),
          addEventListener bus eventName listener (w\<lparr>created := created w + 1\<rparr>)))"

fun bus_cleanup_run :: "bus_cleanup \<Rightarrow> bus_world \<Rightarrow> bus_world" where
  "bus_cleanup_run (RemoveBusListener bus eventName listener) w =
     removeEventListener bus eventName listener w"

text \<open>
  The life of the component as the bus sees it: the component is mounted, then updated any
  number of times while events are dispatched on the bus, then torn down.
\<close>

datatype bus_event =
    Patch
  | Dispatch nat string

definition bus_mounted ::
    "nat \<Rightarrow> string \<Rightarrow> nat \<Rightarrow> component \<Rightarrow> bus_world \<Rightarrow> (unit, bus_cleanup) slot \<times> bus_world" where
  "bus_mounted bus eventName callback component w =
     onMounted (\<lambda>w. []) (bus_effect bus eventName callback component) w"

fun bus_step ::
    "nat \<Rightarrow> string \<Rightarrow> nat \<Rightarrow> component \<Rightarrow> bus_event
       \<Rightarrow> (unit, bus_cleanup) slot \<times> bus_world \<Rightarrow> (unit, bus_cleanup) slot \<times> bus_world" where
  "bus_step bus eventName callback component Patch (sl, w) =
     onPatched (\<lambda>w. []) (bus_effect bus eventName callback component) bus_cleanup_run sl w"
| "bus_step bus eventName callback component (Dispatch b n) (sl, w) = (sl, trigger b n w)"

fun bus_run ::
    "nat \<Rightarrow> string \<Rightarrow> nat \<Rightarrow> component \<Rightarrow> bus_event list
       \<Rightarrow> (unit, bus_cleanup) slot \<times> bus_world \<Rightarrow> (unit, bus_cleanup) slot \<times> bus_world" where
  "bus_run bus eventName callback component [] s = s"
| "bus_run bus eventName callback component (e # es) s =
     bus_run bus eventName callback component es (bus_step bus eventName callback component e s)"

definition bus_torn_down :: "(unit, bus_cleanup) slot \<times> bus_world \<Rightarrow> bus_world" where
  "bus_torn_down s = onWillUnmount bus_cleanup_run (fst s) (snd s)"

text \<open>Dispatches after the teardown: (bus, event name) pairs.\<close>

fun triggers :: "(nat \<times> string) list \<Rightarrow> bus_world \<Rightarrow> bus_world" where
  "triggers [] w = w"
| "triggers ((b, n) # ds) w = triggers ds (trigger b n w)"

text \<open>The number of calls of a listener for a given event, in a log.\<close>

definition calls_of :: "bound_fn \<Rightarrow> string \<Rightarrow> (bound_fn \<times> string) list \<Rightarrow> nat" where
  "calls_of l eventName log = count_list log (l, eventName)"

text \<open>Every function object of the buses was created before the counter's current value.\<close>

definition fresh_from :: "bus_world \<Rightarrow> bool" where
  "fresh_from w = (\<forall>b. \<forall>(n, l) \<in> set (listeners w b). ident l < created w)"

section \<open>useAutofocus\<close>

text \<open>
  The function \<^verbatim>\<open>useAutofocus\<close> returns: \<^verbatim>\<open>() => {}\<close> or
  \<^verbatim>\<open>focusOnUpdate\<close>, which captures the variable \<^verbatim>\<open>forceFocusCount\<close> of the
  call that made it.
\<close>

datatype focus_trigger =
    Noop
  | FocusOnUpdate nat

text \<open>
  \<^verbatim>\<open>useAutofocus(refName = "autofocus")\<close>: the argument may be left out. On a small
  screen it returns before it registers anything. Otherwise each call has a variable
  \<^verbatim>\<open>forceFocusCount\<close> of its own, named here by the position of the effect that the
  call registers.
\<close>

definition useAutofocus ::
    "string option \<Rightarrow> component \<Rightarrow> effect_reg list \<Rightarrow> focus_trigger \<times> effect_reg list" where
  "useAutofocus refName component regs =
     (if truthy (isSmall component) then (Noop, regs)
      else (FocusOnUpdate (length regs),
            regs @ [AutofocusEffect (case refName of None \<Rightarrow> ''autofocus'' | Some n \<Rightarrow> n)
                      (length regs)]))"

text \<open>
  What the effect reads and writes of an element: its tag name, the type of control it is
  when it is an input (\<^verbatim>\<open>el.type\<close>), its value (a JavaScript string: the list of its
  UTF-16 code units, which is what \<^verbatim>\<open>length\<close> counts), and the two ends of its
  selection (absent until they are written).
\<close>

record element =
  tagName :: string
  input_type :: string
  val :: "nat list"
  selectionStart :: "nat option"
  selectionEnd :: "nat option"

text \<open>
  The browser lets a script write \<^verbatim>\<open>selectionStart\<close> and \<^verbatim>\<open>selectionEnd\<close> of
  an input only when the input is a text, search, URL, telephone or password control; on
  an input of another type (number, email, date, checkbox and so on) the write throws an
  \<^verbatim>\<open>InvalidStateError\<close>. Other elements, a textarea among them, take the write.
\<close>

definition selection_applies :: "element \<Rightarrow> bool" where
  "selection_applies e =
     (if tagName e = ''INPUT''
      then input_type e \<in> set [''text'', ''search'', ''url'', ''tel'', ''password'']
      else True)"

text \<open>
  The state the hook acts on: the elements of the document by identity, the log of the calls
  of \<^verbatim>\<open>el.focus()\<close>, the element each reference name resolves to (\<^verbatim>\<open>ref.el\<close>, or
  \<^verbatim>\<open>null\<close>), the variables \<^verbatim>\<open>forceFocusCount\<close> that the closures share, and the
  errors that effects have thrown to the framework.
\<close>

record focus_world =
  elements :: "nat \<Rightarrow> element"
  focus_log :: "nat list"
  refs :: "string \<Rightarrow> nat option"
  forceFocusCount :: "nat \<Rightarrow> nat"
  thrown :: "js_error list"

datatype dep =
    DepEl "nat option"
  | DepCount nat

definition focus_deps :: "string \<Rightarrow> nat \<Rightarrow> focus_world \<Rightarrow> dep list" where
  "focus_deps refName k w = [DepEl (refs w refName), DepCount (forceFocusCount w k)]"

text \<open>The selection is written end first, as the chained assignment does.\<close>

definition set_caret :: "element \<Rightarrow> element" where
  "set_caret e = e\<lparr>selectionEnd := Some (length (val e)), selectionStart := Some (length (val e))\<rparr>"

text \<open>
  The effect, called with the dependencies spread over its parameters: \<^verbatim>\<open>el\<close> is
  the first. It returns no clean-up. On an input whose selection cannot be written, the
  first write, after the call of \<^verbatim>\<open>focus\<close>, throws: nothing is written, and the
  error leaves the effect.
\<close>

definition focus_effect :: "dep list \<Rightarrow> focus_world \<Rightarrow> unit option \<times> focus_world" where
  "focus_effect deps w =
     (case deps of
        DepEl (Some e) # rest \<Rightarrow>
          (let w' = w\<lparr>focus_log := focus_log w @ [e]\<rparr>
           in if tagName (elements w' e) \<in> set [''INPUT'', ''TEXTAREA'']
              then (if selection_applies (elements w' e)
                    then (None, w'\<lparr>elements := (elements w')(e := set_caret (elements w' e))\<rparr>)
                    else (None, w'\<lparr>thrown := thrown w' @ [DOMException ''InvalidStateError'']\<rparr>))
              else (None, w'))
      | _ \<Rightarrow> (None, w))"

text \<open>
  \<^verbatim>\<open>forceFocusCount++\<close>. The variable is a JavaScript number, a double: it starts at
  0 and counts exactly up to \<open>2 ^ 53\<close>, where adding one rounds back to \<open>2 ^ 53\<close>.
\<close>

definition js_increment :: "nat \<Rightarrow> nat" where
  "js_increment n = (if n < 2 ^ 53 then n + 1 else n)"

definition focusOnUpdate :: "nat \<Rightarrow> focus_world \<Rightarrow> focus_world" where
  "focusOnUpdate k w =
     w\<lparr>forceFocusCount := (forceFocusCount w)(k := js_increment (forceFocusCount w k))\<rparr>"

fun call_trigger :: "focus_trigger \<Rightarrow> focus_world \<Rightarrow> focus_world" where
  "call_trigger Noop w = w"
| "call_trigger (FocusOnUpdate k) w = focusOnUpdate k w"

text \<open>
  The life of a registered effect in this state: the effect of \<^verbatim>\<open>useAutofocus\<close> is
  mounted and updated by the framework's primitive; the effects of the other hooks do not
  act on this state.
\<close>

fun focus_mounted :: "effect_reg \<Rightarrow> focus_world \<Rightarrow> (dep, unit) slot \<times> focus_world" where
  "focus_mounted (AutofocusEffect refName k) w = onMounted (focus_deps refName k) focus_effect w"
| "focus_mounted r w = (\<lparr>dependencies = [], cleanup = None\<rparr>, w)"




section \<open>A component to run the hooks on\<close>

text \<open>
  What an object made by \<^verbatim>\<open>{}\<close> inherits: the properties of
  \<^verbatim>\<open>Object.prototype\<close>, which are functions but for \<^verbatim>\<open>__proto__\<close>.
\<close>

definition object_prototype :: "(string \<times> jsval) list" where
  "object_prototype =
     [(''constructor'', JFn 100), (''hasOwnProperty'', JFn 101), (''isPrototypeOf'', JFn 102),
      (''propertyIsEnumerable'', JFn 103), (''toLocaleString'', JFn 104),
      (''toString'', JFn 105), (''valueOf'', JFn 106), (''__defineGetter__'', JFn 107),
      (''__defineSetter__'', JFn 108), (''__lookupGetter__'', JFn 109),
      (''__lookupSetter__'', JFn 110), (''__proto__'', JObj 111 [])]"

text \<open>
  A component whose registry is a plain object with three services: \<^verbatim>\<open>rpc\<close> is a
  function, \<^verbatim>\<open>orm\<close> an object with a method \<^verbatim>\<open>read\<close>, \<^verbatim>\<open>title\<close> an
  object that needs no guard. The metadata are a plain object too. Each implementation
  returns a promise of its own when it is called.
\<close>

definition example_component :: component where
  "example_component =
     \<lparr>cid = 7, isSmall = JBool False,
      services =
        \<lparr>own = [(''rpc'', JFn 5), (''orm'', JObj 2 [(''read'', JFn 3)]), (''title'', JObj 4 [])],
         inherited = object_prototype\<rparr>,
      el = 10\<rparr>"

definition example_metadata :: metadata where
  "example_metadata =
     \<lparr>listed = [(''rpc'', []), (''orm'', [''read''])], meta_inherited = object_prototype\<rparr>"


definition example_impl :: fn_impl where
  "example_impl f this args = Returns (JPromise f)"

definition alive_world :: world where
  "alive_world =
     \<lparr>status = (\<lambda>c. 1), settled = (\<lambda>p. None), calls = [], reported = (\<lambda>i. None)\<rparr>"

definition dead_world :: world where
  "dead_world =
     \<lparr>status = (\<lambda>c. 2), settled = (\<lambda>p. None), calls = [], reported = (\<lambda>i. None)\<rparr>"

text \<open>
  A document for the example component, whose root is the element 10: a click on the
  element 12, whose parent 11 is the only element that matches \<^verbatim>\<open>button\<close>, inside
  the root, itself inside the element 2. The click bubbles and nothing stops it. A click
  on the element 13, a child of the element 2, is outside the root. A focus event on the
  element 11 does not bubble.
\<close>

definition example_click :: dom_event where
  "example_click =
     \<lparr>etype = ''click'', path = [12, 11, 10, 2], reached = propagate True [12, 11, 10, 2]\<rparr>"

definition example_click_outside :: dom_event where
  "example_click_outside =
     \<lparr>etype = ''click'', path = [13, 2], reached = propagate True [13, 2]\<rparr>"

definition example_focus :: dom_event where
  "example_focus =
     \<lparr>etype = ''focus'', path = [11, 10, 2], reached = propagate False [11, 10, 2]\<rparr>"

definition example_matches :: "nat \<Rightarrow> jsval \<Rightarrow> bool" where
  "example_matches e q = (e = 11 \<and> q = JStr ''button'')"

definition empty_dom :: dom_world where
  "empty_dom = \<lparr>dom_listeners = [], handled = []\<rparr>"

text \<open>A bus world where the bus 3 already has a listener, the fourth function created.\<close>

definition example_bus_world :: bus_world where
  "example_bus_world =
     \<lparr>listeners = (\<lambda>b. if b = 3 then [(''ping'', \<lparr>ident = 3, target_fn = 8, bound_this = 9\<rparr>)]
                        else []),
      created = 4, invoked = []\<rparr>"

text \<open>
  A document with one text input, the element 20, which the reference
  \<^verbatim>\<open>autofocus\<close> resolves to; its value has two characters.
\<close>

definition example_focus_world :: focus_world where
  "example_focus_world =
     \<lparr>elements = (\<lambda>e. \<lparr>tagName = ''INPUT'', input_type = ''text'', val = [104, 105],
                           selectionStart = None, selectionEnd = None\<rparr>),
      focus_log = [], refs = (\<lambda>n. if n = ''autofocus'' then Some 20 else None),
      forceFocusCount = (\<lambda>k. 0), thrown = []\<rparr>"

text \<open>The same document where the input is a number input with the value 42.\<close>

definition example_number_world :: focus_world where
  "example_number_world =
     example_focus_world\<lparr>elements :=
       (\<lambda>e. \<lparr>tagName = ''INPUT'', input_type = ''number'', val = [52, 50],
              selectionStart = None, selectionEnd = None\<rparr>)\<rparr>"


section \<open>Properties of useService and of the destruction guard\<close>

lemma protect_methods_shape:
  "protect_methods component service ms = Inr r \<Longrightarrow> (m, p) \<in> set r \<Longrightarrow>
   \<exists>fn. p = Protected (cid component) service fn"
proof (induction ms arbitrary: r)
  case Nil
  then show ?case by simp
next
  case (Cons m' ms)
  then show ?case
    by (fastforce simp: protectMethod_def split: sum.splits)
qed

lemma guarded_shape:
  assumes "useService md component name = (Inr h, ops)" and "p \<in> set (guarded h)"
  shows "\<exists>caller fn. p = Protected (cid component) caller fn"
  using assms
  by (auto simp: useService_def Let_def protectMethod_def
           split: if_splits option.splits jsval.splits sum.splits)
     (blast dest: protect_methods_shape)+

lemma protected_call_destroyed:
  "status w c = DESTROYED \<Longrightarrow>
   protected_call impl (Protected c caller fn) args w =
     (Normal (Done (Rejected (Error ''Component is destroyed''))), w)"
  by (simp add: protected_call_def)

lemma example_rpc:
  "useService example_metadata example_component ''rpc'' =
     (Inr (GuardedFn (Protected 7 Null (JFn 5))), [Has ''rpc'', Get ''rpc''])"
  by (simp add: useService_def example_metadata_def example_component_def js_in_def
        js_get_def meta_in_def protectMethod_def)

lemma example_orm:
  "useService example_metadata example_component ''orm'' =
     (Inr (GuardedObj (JObj 2 [(''read'', JFn 3)])
            [(''read'', Protected 7 (JObj 2 [(''read'', JFn 3)]) (JFn 3))]),
      [Has ''orm'', Get ''orm''])"
  by (simp add: useService_def example_metadata_def example_component_def js_in_def
        js_get_def meta_in_def meta_methods_def get_prop_def protectMethod_def Let_def)

text \<open>
  C1, as the code has it. The wrapper is an \<^verbatim>\<open>async\<close> function: called when its
  component is destroyed, it throws nothing to its caller. For every guarded method that
  \<^verbatim>\<open>useService\<close> hands out, the call completes normally and returns a promise that
  is rejected, from the start, with the error "Component is destroyed"; the world is left
  as it was, so the log of the calls of service implementations has not grown: the
  implementation is not invoked.
\<close>

theorem guarded_call_after_destroy:
  assumes "useService md component name = (Inr h, ops)"
    and "p \<in> set (guarded h)"
    and "status w (cid component) = DESTROYED"
  shows "protected_call impl p args w =
           (Normal (Done (Rejected (Error ''Component is destroyed''))), w)
         \<and> calls (snd (protected_call impl p args w)) = calls w"
proof -
  from guarded_shape[OF assms(1,2)]
  obtain caller fn where "p = Protected (cid component) caller fn" by blast
  with assms(3) show ?thesis by (simp add: protected_call_destroyed)
qed

theorem guarded_call_after_destroy_witness:
  "fst (useService example_metadata example_component ''orm'')
     = Inr (GuardedObj (JObj 2 [(''read'', JFn 3)])
            [(''read'', Protected 7 (JObj 2 [(''read'', JFn 3)]) (JFn 3))])
   \<and> Protected 7 (JObj 2 [(''read'', JFn 3)]) (JFn 3)
     \<in> set (guarded (GuardedObj (JObj 2 [(''read'', JFn 3)])
            [(''read'', Protected 7 (JObj 2 [(''read'', JFn 3)]) (JFn 3))]))
   \<and> status dead_world (cid example_component) = DESTROYED
   \<and> protected_call example_impl (Protected 7 (JObj 2 [(''read'', JFn 3)]) (JFn 3)) [JNum 1]
        dead_world
     = (Normal (Done (Rejected (Error ''Component is destroyed''))), dead_world)
   \<and> calls (snd (protected_call example_impl
        (Protected 7 (JObj 2 [(''read'', JFn 3)]) (JFn 3)) [JNum 1] dead_world)) = []"
proof -
  have a: "Protected 7 (JObj 2 [(''read'', JFn 3)]) (JFn 3)
     \<in> set (guarded (GuardedObj (JObj 2 [(''read'', JFn 3)])
            [(''read'', Protected 7 (JObj 2 [(''read'', JFn 3)]) (JFn 3))]))"
    by simp
  have b: "status dead_world (cid example_component) = DESTROYED"
    by (simp add: dead_world_def DESTROYED_def)
  from guarded_call_after_destroy[OF example_orm a b, of example_impl "[JNum 1]"] a b
  show ?thesis by (simp add: example_orm dead_world_def)
qed

text \<open>
  C1 as the claim words it fails: the call of a guarded method of a destroyed component
  does not raise. Here the guarded \<^verbatim>\<open>rpc\<close> of the example component is called in
  a world where the component is destroyed: the call returns normally, with a rejected
  promise, and no error is thrown.
\<close>

theorem guarded_call_returns_counterexample:
  "Protected 7 Null (JFn 5)
     \<in> set (guarded (GuardedFn (Protected 7 Null (JFn 5))))
   \<and> fst (useService example_metadata example_component ''rpc'')
       = Inr (GuardedFn (Protected 7 Null (JFn 5)))
   \<and> status dead_world (cid example_component) = DESTROYED
   \<and> fst (protected_call example_impl (Protected 7 Null (JFn 5)) [] dead_world)
       \<noteq> Throw (Error ''Component is destroyed'')
   \<and> fst (protected_call example_impl (Protected 7 Null (JFn 5)) [] dead_world)
       = Normal (Done (Rejected (Error ''Component is destroyed'')))"
  by (simp add: example_rpc protected_call_def dead_world_def DESTROYED_def)

lemma run_append: "run c (xs @ ys) s = run c ys (run c xs s)"
  by (induction xs arbitrary: s) auto

lemma run_pending:
  "settled w p = None \<Longrightarrow> \<forall>ev \<in> set evs. \<not> is_settle p ev \<Longrightarrow>
   \<exists>w'. run c evs (Awaiting (JPromise p), w) = (Awaiting (JPromise p), w') \<and>
        settled w' p = None \<and> (status w c = DESTROYED \<longrightarrow> status w' c = DESTROYED)"
proof (induction evs arbitrary: w)
  case Nil
  then show ?case by simp
next
  case (Cons ev evs)
  show ?case
  proof (cases ev)
    case (Destroy d)
    let ?w = "w\<lparr>status := (status w)(d := DESTROYED)\<rparr>"
    have "settled ?w p = None" using Cons.prems by simp
    from Cons.IH[OF this] Cons.prems(2) Destroy show ?thesis by (auto split: if_splits)
  next
    case (Settle q out)
    then have "q \<noteq> p" using Cons.prems(2) by auto
    let ?w = "if settled w q = None then w\<lparr>settled := (settled w)(q \<mapsto> out)\<rparr> else w"
    have "settled ?w p = None" using Cons.prems(1) \<open>q \<noteq> p\<close> by simp
    from Cons.IH[OF this] Cons.prems(2) Settle show ?thesis by auto
  next
    case (Report i out)
    let ?w = "if reported w i = None then w\<lparr>reported := (reported w)(i \<mapsto> out)\<rparr> else w"
    have "settled ?w p = None" using Cons.prems(1) by simp
    from Cons.IH[OF this] Cons.prems(2) Report show ?thesis by auto
  next
    case Microtask
    from Cons.IH[OF Cons.prems(1)] Cons.prems Microtask show ?thesis by auto
  qed
qed

lemma run_fulfilled:
  "status w c = DESTROYED \<Longrightarrow> settled w p = Some (Fulfilled v) \<Longrightarrow>
   t = Awaiting (JPromise p) \<or> t = Forever \<Longrightarrow>
   view (fst (run c evs (t, w))) = Pending"
proof (induction evs arbitrary: t w)
  case Nil
  then show ?case by auto
next
  case (Cons ev evs)
  show ?case
  proof (cases ev)
    case (Destroy d)
    with Cons show ?thesis by simp
  next
    case (Settle q out)
    let ?w = "if settled w q = None then w\<lparr>settled := (settled w)(q \<mapsto> out)\<rparr> else w"
    have "status ?w c = DESTROYED" "settled ?w p = Some (Fulfilled v)"
      using Cons.prems by auto
    from Cons.IH[OF this Cons.prems(3)] Settle show ?thesis by simp
  next
    case (Report i out)
    let ?w = "if reported w i = None then w\<lparr>reported := (reported w)(i \<mapsto> out)\<rparr> else w"
    have "status ?w c = DESTROYED" "settled ?w p = Some (Fulfilled v)"
      using Cons.prems by auto
    from Cons.IH[OF this Cons.prems(3)] Report show ?thesis by simp
  next
    case Microtask
    have "resume c t w = Forever" using Cons.prems by (auto simp: after_await_def)
    with Cons Microtask show ?thesis by simp
  qed
qed

lemma run_rejected:
  "settled w p = Some (Rejected e) \<Longrightarrow>
   t = Awaiting (JPromise p) \<and> Microtask \<in> set evs \<or> t = Done (Rejected e) \<Longrightarrow>
   fst (run c evs (t, w)) = Done (Rejected e)"
proof (induction evs arbitrary: t w)
  case Nil
  then show ?case by auto
next
  case (Cons ev evs)
  show ?case
  proof (cases ev)
    case (Destroy d)
    with Cons show ?thesis by simp
  next
    case (Settle q out)
    let ?w = "if settled w q = None then w\<lparr>settled := (settled w)(q \<mapsto> out)\<rparr> else w"
    have "settled ?w p = Some (Rejected e)"
      using Cons.prems by auto
    from Cons.IH[OF this] Cons.prems(2) Settle show ?thesis by simp
  next
    case (Report i out)
    let ?w = "if reported w i = None then w\<lparr>reported := (reported w)(i \<mapsto> out)\<rparr> else w"
    have "settled ?w p = Some (Rejected e)"
      using Cons.prems by auto
    from Cons.IH[OF this] Cons.prems(2) Report show ?thesis by simp
  next
    case Microtask
    have "resume c t w = Done (Rejected e)" using Cons.prems by auto
    with Cons Microtask show ?thesis by simp
  qed
qed

text \<open>
  C2, as the code has it. A guarded method of \<^verbatim>\<open>useService\<close> is called while its
  component is alive, and the implementation returns a promise \<open>q\<close> that is pending. The
  component is destroyed before \<open>q\<close> settles (no event before the destruction, or between
  it and the settlement, settles \<open>q\<close>); whatever else happens before, between and after.
  If \<open>q\<close> is then fulfilled, the wrapper's promise is pending after every continuation
  of the events: it never settles, and the value never reaches the caller. If \<open>q\<close> is
  rejected instead, the \<^verbatim>\<open>await\<close> throws before the status is read again: once the
  job queue has run, the wrapper's promise is rejected with the same error.
\<close>

theorem destroyed_while_pending:
  assumes "useService md component name = (Inr h, ops)"
    and "Protected c caller fn \<in> set (guarded h)"
    and "status w c \<noteq> DESTROYED"
    and "protected_call impl (Protected c caller fn) args w
           = (Normal (Awaiting (JPromise q)), w1)"
    and pend: "settled w1 q = None"
    and quiet: "\<forall>ev \<in> set (before @ between). \<not> is_settle q ev"
  shows "view (fst (run c (before @ Destroy c # between @ Settle q (Fulfilled v) # after)
                 (Awaiting (JPromise q), w1))) = Pending
       \<and> (Microtask \<in> set after \<longrightarrow>
            view (fst (run c (before @ Destroy c # between @ Settle q (Rejected e) # after)
                 (Awaiting (JPromise q), w1))) = Settled (Rejected e))"
proof -
  let ?t = "Awaiting (JPromise q)"
  from run_pending[OF pend, of before c] quiet
  obtain w2 where w2: "run c before (?t, w1) = (?t, w2)" "settled w2 q = None" by auto
  let ?w3 = "w2\<lparr>status := (status w2)(c := DESTROYED)\<rparr>"
  have s3: "settled ?w3 q = None" "status ?w3 c = DESTROYED" using w2 by auto
  from run_pending[OF s3(1), of between c] quiet s3(2)
  obtain w4 where w4: "run c between (?t, ?w3) = (?t, w4)" "settled w4 q = None"
      "status w4 c = DESTROYED" by auto
  have prefix: "run c (before @ Destroy c # between @ Settle q out # after) (?t, w1) =
       run c after (?t, w4\<lparr>settled := (settled w4)(q \<mapsto> out)\<rparr>)" for out
    using w2 w4 by (simp add: run_append)
  have A: "view (fst (run c after (?t, w4\<lparr>settled := (settled w4)(q \<mapsto> Fulfilled v)\<rparr>))) = Pending"
    by (rule run_fulfilled[where p = q and v = v]) (use w4 in auto)
  have B: "Microtask \<in> set after \<Longrightarrow>
      fst (run c after (?t, w4\<lparr>settled := (settled w4)(q \<mapsto> Rejected e)\<rparr>)) = Done (Rejected e)"
    by (rule run_rejected[where p = q]) auto
  show ?thesis using A B by (simp add: prefix)
qed

lemma example_rpc_call:
  "protected_call example_impl (Protected 7 Null (JFn 5)) [] alive_world
     = (Normal (Awaiting (JPromise 5)), alive_world\<lparr>calls := [(5, Null, [])]\<rparr>)"
  by (simp add: protected_call_def alive_world_def DESTROYED_def example_impl_def)

theorem destroyed_while_pending_witness:
  "view (fst (run 7 ([Microtask] @ Destroy 7 # [Destroy 8, Microtask]
                        @ Settle 5 (Fulfilled (JNum 42)) # [Microtask, Microtask])
                 (Awaiting (JPromise 5), alive_world\<lparr>calls := [(5, Null, [])]\<rparr>))) = Pending
   \<and> view (fst (run 7 ([Microtask] @ Destroy 7 # [Destroy 8, Microtask]
                        @ Settle 5 (Rejected (Error ''boom'')) # [Microtask, Microtask])
                 (Awaiting (JPromise 5), alive_world\<lparr>calls := [(5, Null, [])]\<rparr>)))
       = Settled (Rejected (Error ''boom''))"
proof -
  have a: "Protected 7 Null (JFn 5) \<in> set (guarded (GuardedFn (Protected 7 Null (JFn 5))))"
    by simp
  have b: "status alive_world 7 \<noteq> DESTROYED"
    by (simp add: alive_world_def DESTROYED_def)
  have c: "settled (alive_world\<lparr>calls := [(5, Null, [])]\<rparr>) 5 = None"
    by (simp add: alive_world_def)
  have d: "\<forall>ev \<in> set ([Microtask] @ [Destroy 8, Microtask]). \<not> is_settle 5 ev"
    by simp
  have e: "Microtask \<in> set [Microtask, Microtask]"
    by simp
  from destroyed_while_pending[OF example_rpc a b example_rpc_call c d,
      of "JNum 42" "[Microtask, Microtask]" "Error ''boom''"] e
  show ?thesis by blast
qed

text \<open>
  C2 as the claim words it fails when the pending call ends in a rejection: the guarded
  \<^verbatim>\<open>rpc\<close> of the example component is called, the component is destroyed, the
  promise the implementation returned is rejected, and the wrapper's promise is rejected
  with the same error instead of staying pending.
\<close>

theorem destroyed_then_rejected_counterexample:
  "fst (useService example_metadata example_component ''rpc'')
       = Inr (GuardedFn (Protected 7 Null (JFn 5)))
   \<and> protected_call example_impl (Protected 7 Null (JFn 5)) [] alive_world
       = (Normal (Awaiting (JPromise 5)), alive_world\<lparr>calls := [(5, Null, [])]\<rparr>)
   \<and> view (fst (run 7 [Destroy 7, Settle 5 (Rejected (Error ''boom'')), Microtask]
                 (Awaiting (JPromise 5), alive_world\<lparr>calls := [(5, Null, [])]\<rparr>)))
       = Settled (Rejected (Error ''boom''))
   \<and> view (fst (run 7 [Destroy 7, Settle 5 (Rejected (Error ''boom'')), Microtask]
                 (Awaiting (JPromise 5), alive_world\<lparr>calls := [(5, Null, [])]\<rparr>)))
       \<noteq> Pending"
proof -
  have a: "view (fst (run 7 [Destroy 7, Settle 5 (Rejected (Error ''boom'')), Microtask]
                 (Awaiting (JPromise 5), alive_world\<lparr>calls := [(5, Null, [])]\<rparr>)))
       = Settled (Rejected (Error ''boom''))"
    by (simp add: alive_world_def)
  have b: "fst (useService example_metadata example_component ''rpc'')
       = Inr (GuardedFn (Protected 7 Null (JFn 5)))"
    by (simp add: example_rpc)
  from a b example_rpc_call show ?thesis
    by simp
qed







section \<open>Properties of useListener\<close>

lemma find_target_chain:
  "root \<in> set p \<Longrightarrow>
   (find_target matches q root p \<noteq> None) = (\<exists>e \<in> set (chain_to_root root p). matches e q)"
  by (induction p) (auto simp: chain_to_root_def)

lemma deliver_listeners:
  "deliver m ev l (w\<lparr>dom_listeners := x\<rparr>) = (deliver m ev l w)\<lparr>dom_listeners := x\<rparr>"
proof -
  obtain e ty h c where l: "l = (e, ty, h, c)" by (cases l)
  show ?thesis by (cases h) (auto simp: l deliver_def split: option.splits)
qed

lemma fold_deliver_listeners:
  "fold (deliver m ev) ls (w\<lparr>dom_listeners := x\<rparr>) = (fold (deliver m ev) ls w)\<lparr>dom_listeners := x\<rparr>"
  by (induction ls arbitrary: w) (auto simp: deliver_listeners)

lemma dispatch_added:
  "handled (dispatch m ev (w\<lparr>dom_listeners := dom_listeners w @ [l]\<rparr>)) =
   handled (deliver m ev l (dispatch m ev w))"
  by (simp add: dispatch_def fold_deliver_listeners deliver_listeners)

lemma deliver_delegated:
  "handled (deliver m ev (el component, JStr n, Delegated q h component, c) w) =
   handled w @ (if etype ev = n \<and> reaches ev (el component) c
                   \<and> (\<exists>e \<in> set (chain_to_root (el component) (path ev)). m e q)
                then [(h, cid component, ev)] else [])"
proof (cases "el component \<in> set (path ev)")
  case True
  from find_target_chain[OF this, of m q] show ?thesis
    by (auto simp: deliver_def True split: option.splits)
next
  case False
  then show ?thesis by (simp add: deliver_def chain_to_root_def reaches_def)
qed

lemma useListener_delegated:
  "sel \<noteq> [] \<Longrightarrow> typeof handler = ''function'' \<Longrightarrow>
   useListener (JStr n # JStr sel # handler # rest) component regs =
   Inr (regs @ [ListenerEffect component (JStr n) (Delegated (JStr sel) handler component)
       (if arg (JStr n # JStr sel # handler # rest) 3 = Undefined then empty_object
        else arg (JStr n # JStr sel # handler # rest) 3)])"
  by (simp add: useListener_def arg_def Let_def)

text \<open>
  C3, as the code has it. \<^verbatim>\<open>useListener\<close> is called with an event name, a selector
  (a string that is not empty) and a handler that is a function: it registers the
  delegating handler with the options it was given. Once the effect has attached it to the
  root, a dispatch of an event adds to the calls that the other listeners make exactly one
  call of the handler, with the component as \<^verbatim>\<open>this\<close> and the event as argument,
  when the event has the registered type, reaches the listeners of the root in the phase
  the options ask for, and an element of the chain from its target up to the root (the
  root included) matches the selector; it adds nothing otherwise. In particular it adds
  nothing when no element of the chain matches, nothing when the target is outside the
  root's subtree (the root is not on the event's path), and nothing when the event does
  not reach the root's listeners, as an event that does not bubble and a listener that
  does not capture.
\<close>

theorem delegated_listener:
  assumes "sel \<noteq> []" and "typeof handler = ''function''"
  shows "\<exists>options. useListener (JStr eventName # JStr sel # handler # rest) component regs
            = Inr (regs @ [ListenerEffect component (JStr eventName)
                             (Delegated (JStr sel) handler component) options])
     \<and> handled (dispatch matches ev (snd (listener_effect component (JStr eventName)
                   (Delegated (JStr sel) handler component) options [] w)))
         = handled (dispatch matches ev w)
           @ (if etype ev = eventName
                 \<and> reaches ev (el component) (capture_of options)
                 \<and> (\<exists>e \<in> set (chain_to_root (el component) (path ev)). matches e (JStr sel))
              then [(handler, cid component, ev)] else [])
     \<and> (el component \<notin> set (path ev) \<longrightarrow>
          handled (dispatch matches ev (snd (listener_effect component (JStr eventName)
                   (Delegated (JStr sel) handler component) options [] w)))
          = handled (dispatch matches ev w))
     \<and> (\<not> reaches ev (el component) (capture_of options) \<longrightarrow>
          handled (dispatch matches ev (snd (listener_effect component (JStr eventName)
                   (Delegated (JStr sel) handler component) options [] w)))
          = handled (dispatch matches ev w))"
proof -
  have a: "handled (dispatch matches ev (snd (listener_effect component (JStr eventName)
                   (Delegated (JStr sel) handler component) options [] w)))
         = handled (dispatch matches ev w)
           @ (if etype ev = eventName
                 \<and> reaches ev (el component) (capture_of options)
                 \<and> (\<exists>e \<in> set (chain_to_root (el component) (path ev)). matches e (JStr sel))
              then [(handler, cid component, ev)] else [])" for options
    by (simp add: listener_effect_def dispatch_added deliver_delegated)
  have b: "el component \<notin> set (path ev) \<Longrightarrow> chain_to_root (el component) (path ev) = []"
    by (simp add: chain_to_root_def)
  show ?thesis
    by (rule exI[where x = "if arg (JStr eventName # JStr sel # handler # rest) 3 = Undefined
                            then empty_object
                            else arg (JStr eventName # JStr sel # handler # rest) 3"])
       (use useListener_delegated[OF assms, of eventName rest component regs] a b in auto)
qed

lemma example_click_reaches: "reaches example_click (el example_component) (capture_of empty_object)"
  by (simp add: reaches_def example_click_def example_component_def empty_object_def get_prop_def)

lemma example_focus_stops:
  "\<not> reaches example_focus (el example_component) (capture_of empty_object)"
  by (simp add: reaches_def example_focus_def example_component_def empty_object_def get_prop_def)

lemma empty_dom_dispatch: "handled (dispatch example_matches ev empty_dom) = []"
  by (simp add: dispatch_def empty_dom_def)

lemma example_listener:
  "useListener [JStr ''click'', JStr ''button'', JFn 9] example_component []
     = Inr [ListenerEffect example_component (JStr ''click'')
              (Delegated (JStr ''button'') (JFn 9) example_component) empty_object]"
  by (simp add: useListener_def arg_def Let_def)

theorem delegated_listener_witness:
  "handled (dispatch example_matches example_click
      (snd (listener_effect example_component (JStr ''click'')
              (Delegated (JStr ''button'') (JFn 9) example_component) empty_object []
              empty_dom)))
     = [(JFn 9, 7, example_click)]"
proof -
  have a: "''button'' \<noteq> []" by simp
  have b: "typeof (JFn 9) = ''function''" by simp
  have d: "\<exists>e \<in> set (chain_to_root (el example_component) (path example_click)).
             example_matches e (JStr ''button'')"
    by (simp add: chain_to_root_def example_component_def example_click_def example_matches_def)
  have f: "etype example_click = ''click''" "cid example_component = 7"
    by (simp_all add: example_click_def example_component_def)
  from delegated_listener[OF a b, of "''click''" "[]" example_component "[]"
         example_matches example_click empty_dom]
  obtain options where
    o: "useListener [JStr ''click'', JStr ''button'', JFn 9] example_component []
          = Inr ([] @ [ListenerEffect example_component (JStr ''click'')
                   (Delegated (JStr ''button'') (JFn 9) example_component) options])"
    and h: "handled (dispatch example_matches example_click
      (snd (listener_effect example_component (JStr ''click'')
              (Delegated (JStr ''button'') (JFn 9) example_component) options []
              empty_dom)))
     = handled (dispatch example_matches example_click empty_dom)
       @ (if etype example_click = ''click''
             \<and> reaches example_click (el example_component) (capture_of options)
             \<and> (\<exists>e \<in> set (chain_to_root (el example_component) (path example_click)).
                   example_matches e (JStr ''button''))
          then [(JFn 9, cid example_component, example_click)] else [])"
    by blast
  from o have "options = empty_object" by (simp add: example_listener)
  with h show ?thesis
    using empty_dom_dispatch d f example_click_reaches by simp
qed

text \<open>
  C3 as the claim words it fails for an event that does not reach the root's listener.
  The component listens for \<^verbatim>\<open>focus\<close> with the selector \<^verbatim>\<open>button\<close> and no
  options. A focus event is dispatched on the element 11, inside the root: the element
  matches the selector, so an element of the chain from the target to the root matches;
  the event does not bubble, the listener on the root is not called, and the handler is
  not invoked.
\<close>

theorem focus_not_delegated_counterexample:
  "useListener [JStr ''focus'', JStr ''button'', JFn 9] example_component []
     = Inr [ListenerEffect example_component (JStr ''focus'')
              (Delegated (JStr ''button'') (JFn 9) example_component) empty_object]
   \<and> hd (path example_focus) \<in> set (chain_to_root (el example_component) (path example_focus))
   \<and> example_matches (hd (path example_focus)) (JStr ''button'')
   \<and> handled (dispatch example_matches example_focus
      (snd (listener_effect example_component (JStr ''focus'')
              (Delegated (JStr ''button'') (JFn 9) example_component) empty_object []
              empty_dom)))
     = []"
proof -
  have a: "useListener [JStr ''focus'', JStr ''button'', JFn 9] example_component []
     = Inr [ListenerEffect example_component (JStr ''focus'')
              (Delegated (JStr ''button'') (JFn 9) example_component) empty_object]"
    by (simp add: useListener_def arg_def Let_def)
  have b: "hd (path example_focus)
             \<in> set (chain_to_root (el example_component) (path example_focus))"
    by (simp add: chain_to_root_def example_focus_def example_component_def)
  have c: "example_matches (hd (path example_focus)) (JStr ''button'')"
    by (simp add: example_matches_def example_focus_def)
  have d: "handled (dispatch example_matches example_focus
      (snd (listener_effect example_component (JStr ''focus'')
              (Delegated (JStr ''button'') (JFn 9) example_component) empty_object []
              empty_dom)))
     = []"
    using example_focus_stops
    by (simp add: listener_effect_def dispatch_added deliver_delegated empty_dom_dispatch)
  from a b c d show ?thesis by blast
qed

text \<open>
  C5. When the handler that \<^verbatim>\<open>useListener\<close> resolves from its arguments (the second
  when it is not a string, the third otherwise) is not a function, the call throws. It
  returns no registry of effects: nothing has been registered.
\<close>

theorem useListener_handler_check:
  "typeof (if typeof (arg args 1) \<noteq> ''string'' then arg args 1 else arg args 2) \<noteq> ''function''
   \<Longrightarrow> useListener args component regs = Inl (Error ''The handler must be a function'')"
  by (simp add: useListener_def Let_def split: if_splits)

theorem useListener_handler_check_witness:
  "useListener [JStr ''click'', JStr ''button'', JNum 3] example_component []
     = Inl (Error ''The handler must be a function'')
   \<and> useListener [JStr ''click'', JObj 6 []] example_component []
     = Inl (Error ''The handler must be a function'')
   \<and> useListener [JStr ''click''] example_component []
     = Inl (Error ''The handler must be a function'')"
proof -
  have a: "typeof (if typeof (arg [JStr ''click'', JStr ''button'', JNum 3] 1) \<noteq> ''string''
                   then arg [JStr ''click'', JStr ''button'', JNum 3] 1
                   else arg [JStr ''click'', JStr ''button'', JNum 3] 2) \<noteq> ''function''"
    by (simp add: arg_def)
  have b: "typeof (if typeof (arg [JStr ''click'', JObj 6 []] 1) \<noteq> ''string''
                   then arg [JStr ''click'', JObj 6 []] 1
                   else arg [JStr ''click'', JObj 6 []] 2) \<noteq> ''function''"
    by (simp add: arg_def)
  have c: "typeof (if typeof (arg [JStr ''click''] 1) \<noteq> ''string''
                   then arg [JStr ''click''] 1
                   else arg [JStr ''click''] 2) \<noteq> ''function''"
    by (simp add: arg_def)
  from useListener_handler_check[OF a] useListener_handler_check[OF b]
       useListener_handler_check[OF c]
  show ?thesis by simp
qed

section \<open>Properties of useBus\<close>

lemma shouldReapply_Nil: "shouldReapply [] deps = False"
  by (simp add: shouldReapply_def)

lemma count_trigger:
  "count_list (map (\<lambda>(n, l'). (l', e')) (filter (\<lambda>(n, l'). n = e') xs)) (l, e) =
   (if e = e' then count_list xs (e, l) else 0)"
  by (induction xs) auto

lemma calls_of_trigger:
  "calls_of l e (invoked (trigger b e' w)) =
   calls_of l e (invoked w) + (if e = e' then count_list (listeners w b) (e, l) else 0)"
  by (simp add: calls_of_def trigger_def count_trigger)

lemma fresh_not_listed:
  "fresh_from w \<Longrightarrow> ident l = created w \<Longrightarrow> (n, l) \<notin> set (listeners w b)"
  by (fastforce simp: fresh_from_def)

lemma bus_mounted_eq:
  assumes "fresh_from w"
  shows "bus_mounted bus eventName callback component w =
    (\<lparr>dependencies = [], cleanup = Some (RemoveBusListener bus eventName (bind callback component w))\<rparr>,
     w\<lparr>created := created w + 1,
       listeners := (listeners w)(bus := listeners w bus @ [(eventName, bind callback component w)])\<rparr>)"
proof -
  have "(eventName, bind callback component w) \<notin> set (listeners w bus)"
    by (rule fresh_not_listed[OF assms]) (simp add: bind_def)
  then show ?thesis
    by (simp add: bus_mounted_def onMounted_def bus_effect_def Let_def addEventListener_def)
qed

lemma bus_step_mounted:
  assumes "dependencies sl = []"
    and "count_list (listeners w bus) (eventName, l) = 1"
    and "\<forall>b. b \<noteq> bus \<longrightarrow> count_list (listeners w b) (eventName, l) = 0"
  shows "\<exists>w'. bus_step bus eventName callback component ev (sl, w) = (sl, w')
           \<and> listeners w' = listeners w
           \<and> calls_of l eventName (invoked w') =
               calls_of l eventName (invoked w) + (if ev = Dispatch bus eventName then 1 else 0)"
proof (cases ev)
  case Patch
  then show ?thesis using assms(1) by (simp add: onPatched_def shouldReapply_Nil)
next
  case (Dispatch b n)
  have "listeners (trigger b n w) = listeners w" by (simp add: trigger_def)
  moreover have "calls_of l eventName (invoked (trigger b n w)) =
      calls_of l eventName (invoked w) + (if Dispatch b n = Dispatch bus eventName then 1 else 0)"
    using assms(2,3) by (auto simp: calls_of_trigger)
  ultimately show ?thesis using Dispatch by simp
qed

lemma bus_run_mounted:
  assumes "dependencies sl = []"
    and "count_list (listeners w bus) (eventName, l) = 1"
    and "\<forall>b. b \<noteq> bus \<longrightarrow> count_list (listeners w b) (eventName, l) = 0"
  shows "\<exists>w'. bus_run bus eventName callback component evs (sl, w) = (sl, w')
           \<and> listeners w' = listeners w
           \<and> calls_of l eventName (invoked w') =
               calls_of l eventName (invoked w) + count_list evs (Dispatch bus eventName)"
  using assms
proof (induction evs arbitrary: w)
  case Nil
  then show ?case by simp
next
  case (Cons ev evs)
  from bus_step_mounted[OF Cons.prems, of callback component ev]
  obtain w1 where w1: "bus_step bus eventName callback component ev (sl, w) = (sl, w1)"
     "listeners w1 = listeners w"
     "calls_of l eventName (invoked w1) =
        calls_of l eventName (invoked w) + (if ev = Dispatch bus eventName then 1 else 0)"
    by blast
  from Cons.IH[of w1] Cons.prems w1(2)
  obtain w2 where w2: "bus_run bus eventName callback component evs (sl, w1) = (sl, w2)"
     "listeners w2 = listeners w1"
     "calls_of l eventName (invoked w2) =
        calls_of l eventName (invoked w1) + count_list evs (Dispatch bus eventName)"
    by auto
  show ?case using w1 w2 by auto
qed

lemma triggers_unlisted:
  "\<forall>b. (eventName, l) \<notin> set (listeners w b) \<Longrightarrow>
   listeners (triggers ds w) = listeners w \<and>
   calls_of l eventName (invoked (triggers ds w)) = calls_of l eventName (invoked w)"
proof (induction ds arbitrary: w)
  case Nil
  then show ?case by simp
next
  case (Cons d ds)
  obtain b n where d: "d = (b, n)" by (cases d)
  have l: "listeners (trigger b n w) = listeners w" by (simp add: trigger_def)
  have c: "calls_of l eventName (invoked (trigger b n w)) = calls_of l eventName (invoked w)"
    using Cons.prems by (auto simp: calls_of_trigger count_list_0_iff)
  from Cons.IH[of "trigger b n w"] Cons.prems l c d show ?case by simp
qed

text \<open>
  C4. \<^verbatim>\<open>useBus(bus, eventName, callback)\<close> registers one effect. In a world where
  every function object of the buses is older than the next one to be created, the effect
  creates at mount the bound function \<open>bind callback component w\<close>, which calls
  \<^verbatim>\<open>callback\<close> with the component as \<^verbatim>\<open>this\<close>. Between mount and teardown,
  through any updates of the component and any dispatches on any bus, the number of calls
  of that bound function for \<^verbatim>\<open>eventName\<close> grows by exactly the number of dispatches
  of \<^verbatim>\<open>eventName\<close> on the bus: one call for each. The teardown gives the buses back
  the listeners they had before the mount, and no dispatch after it calls the bound
  function again.
\<close>

theorem useBus_lifetime:
  assumes fresh: "fresh_from w"
  shows "useBus bus eventName callback component regs
           = regs @ [BusEffect bus eventName callback component]
     \<and> target_fn (bind callback component w) = callback
     \<and> bound_this (bind callback component w) = cid component
     \<and> calls_of (bind callback component w) eventName
          (invoked (snd (bus_run bus eventName callback component evs
                           (bus_mounted bus eventName callback component w))))
        = calls_of (bind callback component w) eventName (invoked w)
          + count_list evs (Dispatch bus eventName)
     \<and> listeners (bus_torn_down (bus_run bus eventName callback component evs
                           (bus_mounted bus eventName callback component w)))
        = listeners w
     \<and> calls_of (bind callback component w) eventName
          (invoked (triggers ds (bus_torn_down (bus_run bus eventName callback component evs
                           (bus_mounted bus eventName callback component w)))))
        = calls_of (bind callback component w) eventName
          (invoked (snd (bus_run bus eventName callback component evs
                           (bus_mounted bus eventName callback component w))))"
proof -
  let ?l = "bind callback component w"
  let ?sl = "\<lparr>dependencies = [], cleanup = Some (RemoveBusListener bus eventName ?l)\<rparr>"
  let ?w1 = "w\<lparr>created := created w + 1,
       listeners := (listeners w)(bus := listeners w bus @ [(eventName, ?l)])\<rparr>"
  have notin: "(eventName, ?l) \<notin> set (listeners w b)" for b
    by (rule fresh_not_listed[OF fresh]) (simp add: bind_def)
  have m: "bus_mounted bus eventName callback component w = (?sl, ?w1)"
    by (rule bus_mounted_eq[OF fresh])
  have one: "count_list (listeners ?w1 bus) (eventName, ?l) = 1"
    using notin[of bus] by (simp add: count_list_0_iff)
  have zero: "\<forall>b. b \<noteq> bus \<longrightarrow> count_list (listeners ?w1 b) (eventName, ?l) = 0"
    using notin by (simp add: count_list_0_iff)
  from bus_run_mounted[of ?sl ?w1 bus eventName ?l callback component evs, OF _ one zero]
  obtain w2 where w2: "bus_run bus eventName callback component evs (?sl, ?w1) = (?sl, w2)"
     "listeners w2 = listeners ?w1"
     "calls_of ?l eventName (invoked w2) =
        calls_of ?l eventName (invoked ?w1) + count_list evs (Dispatch bus eventName)"
    by auto
  have td: "bus_torn_down (?sl, w2) = removeEventListener bus eventName ?l w2"
    by (simp add: bus_torn_down_def onWillUnmount_def run_stored_def)
  have ltd: "listeners (removeEventListener bus eventName ?l w2) = listeners w"
    using w2(2) notin[of bus] by (simp add: removeEventListener_def remove1_append)
  have itd: "invoked (removeEventListener bus eventName ?l w2) = invoked w2"
    by (simp add: removeEventListener_def)
  have after: "calls_of ?l eventName (invoked (triggers ds (removeEventListener bus eventName ?l w2)))
       = calls_of ?l eventName (invoked w2)"
    using triggers_unlisted[of eventName ?l "removeEventListener bus eventName ?l w2" ds]
      notin ltd itd by simp
  have r: "bus_run bus eventName callback component evs
             (bus_mounted bus eventName callback component w) = (?sl, w2)"
    using m w2(1) by simp
  have c1: "useBus bus eventName callback component regs
           = regs @ [BusEffect bus eventName callback component]"
    by (simp add: useBus_def)
  have c2: "target_fn ?l = callback" "bound_this ?l = cid component"
    by (simp_all add: bind_def)
  have c3: "calls_of ?l eventName (invoked w2)
        = calls_of ?l eventName (invoked w) + count_list evs (Dispatch bus eventName)"
    using w2(3) by simp
  show ?thesis
    unfolding r td snd_conv
    using c1 c2 c3 ltd after by simp
qed

theorem useBus_lifetime_witness:
  "fresh_from example_bus_world
   \<and> target_fn (bind 6 example_component example_bus_world) = 6
   \<and> bound_this (bind 6 example_component example_bus_world) = 7
   \<and> calls_of (bind 6 example_component example_bus_world) ''ping''
        (invoked (snd (bus_run 3 ''ping'' 6 example_component
                         [Dispatch 3 ''ping'', Patch, Dispatch 3 ''pong'', Dispatch 3 ''ping'']
                         (bus_mounted 3 ''ping'' 6 example_component example_bus_world))))
      = 2
   \<and> listeners (bus_torn_down (bus_run 3 ''ping'' 6 example_component
                         [Dispatch 3 ''ping'', Patch, Dispatch 3 ''pong'', Dispatch 3 ''ping'']
                         (bus_mounted 3 ''ping'' 6 example_component example_bus_world)))
      = listeners example_bus_world
   \<and> calls_of (bind 6 example_component example_bus_world) ''ping''
        (invoked (triggers [(3, ''ping''), (3, ''ping'')]
           (bus_torn_down (bus_run 3 ''ping'' 6 example_component
                         [Dispatch 3 ''ping'', Patch, Dispatch 3 ''pong'', Dispatch 3 ''ping'']
                         (bus_mounted 3 ''ping'' 6 example_component example_bus_world)))))
      = 2"
proof -
  have a: "fresh_from example_bus_world"
    by (simp add: fresh_from_def example_bus_world_def)
  have b: "calls_of (bind 6 example_component example_bus_world) ''ping''
             (invoked example_bus_world) = 0"
    by (simp add: calls_of_def example_bus_world_def)
  have c: "count_list [Dispatch 3 ''ping'', Patch, Dispatch 3 ''pong'', Dispatch 3 ''ping'']
             (Dispatch 3 ''ping'') = 2"
    by simp
  have d: "cid example_component = 7"
    by (simp add: example_component_def)
  from useBus_lifetime[OF a, of 3 "''ping''" 6 example_component "[]"
         "[Dispatch 3 ''ping'', Patch, Dispatch 3 ''pong'', Dispatch 3 ''ping'']"
         "[(3, ''ping''), (3, ''ping'')]"] a b c d
  show ?thesis by simp
qed

section \<open>Properties of useAutofocus\<close>















lemma example_registration:
  "useAutofocus None example_component [] = (FocusOnUpdate 0, [AutofocusEffect ''autofocus'' 0])"
  by (simp add: useAutofocus_def example_component_def)




text \<open>
  C8. The effect that \<^verbatim>\<open>useAutofocus\<close> registers is mounted in a document where the
  reference resolves to a number input: \<^verbatim>\<open>focus\<close> is called on the input, the write
  of \<^verbatim>\<open>selectionEnd\<close> throws, and neither end of the selection is set.
\<close>

theorem autofocus_number_input_throws:
  "useAutofocus None example_component [] = (FocusOnUpdate 0, [AutofocusEffect ''autofocus'' 0])
   \<and> refs example_number_world ''autofocus'' = Some 20
   \<and> tagName (elements example_number_world 20) = ''INPUT''
   \<and> focus_log (snd (focus_mounted (AutofocusEffect ''autofocus'' 0) example_number_world)) = [20]
   \<and> thrown (snd (focus_mounted (AutofocusEffect ''autofocus'' 0) example_number_world))
       = [DOMException ''InvalidStateError'']
   \<and> selectionStart (elements (snd (focus_mounted (AutofocusEffect ''autofocus'' 0)
                                       example_number_world)) 20) = None
   \<and> selectionEnd (elements (snd (focus_mounted (AutofocusEffect ''autofocus'' 0)
                                     example_number_world)) 20) = None"
  by (simp add: example_registration onMounted_def focus_deps_def focus_effect_def Let_def
        selection_applies_def example_number_world_def example_focus_world_def)


text \<open>
  C9. On a small screen (\<^verbatim>\<open>env.isSmall\<close> is truthy at setup) \<^verbatim>\<open>useAutofocus\<close>
  leaves the registered effects as they were and returns the function that does nothing:
  called any number of times, it leaves the state as it was.
\<close>

theorem mobile_noop:
  assumes "truthy (isSmall component)"
  shows "useAutofocus refName component regs = (Noop, regs)
     \<and> (call_trigger (fst (useAutofocus refName component regs)) ^^ n) w = w"
proof -
  have a: "useAutofocus refName component regs = (Noop, regs)"
    using assms by (simp add: useAutofocus_def)
  have "(call_trigger Noop ^^ n) w = w" by (induction n) auto
  with a show ?thesis by simp
qed

theorem mobile_noop_witness:
  "truthy (isSmall (example_component\<lparr>isSmall := JBool True\<rparr>))
   \<and> useAutofocus None (example_component\<lparr>isSmall := JBool True\<rparr>) [] = (Noop, [])
   \<and> (call_trigger (fst (useAutofocus None (example_component\<lparr>isSmall := JBool True\<rparr>) []))
        ^^ 3) example_focus_world = example_focus_world"
proof -
  have a: "truthy (isSmall (example_component\<lparr>isSmall := JBool True\<rparr>))"
    by simp
  from mobile_noop[OF a, of None "[]" 3 example_focus_world] a
  show ?thesis by blast
qed

end
